theory Spec2Isabelle
  imports Complex_Main "HOL-Library.Multiset"
begin

section \<open>Values and errors\<close>

text \<open>
  The notebook \<^verbatim>\<open>CodingSession2/TwoLayerPerceptron.ipynb\<close> works on numpy arrays
  of floats and of integer class labels. A one-dimensional float array is a list of reals, a
  two-dimensional one is the list of its rows (all of one length), and a label vector is a
  list of integers. The modelled code stores and copies float entries (the constants 0 and
  1, the literal 0.001) and never computes with them, so an entry is the \<^typ>\<open>real\<close> it
  denotes; the notebook's float computation, \<^verbatim>\<open>mse_loss\<close>, is not modelled.

  Every exception the modelled code can raise is a value of \<open>error\<close>; a function that can
  raise returns \<open>error + 'a\<close> with \<open>Inl\<close> for the exception.
\<close>

datatype error = IndexError | ValueError | NameError

type_synonym vec = "real list"
type_synonym matrix = "real list list"

text \<open>
  The layer functions pass their arguments on without looking at them, and several of them
  return Python's \<^verbatim>\<open>None\<close>, so what flows between the layers is a dynamically typed
  value: \<^verbatim>\<open>None\<close>, a vector or a matrix.
\<close>

datatype pyval = PyNone | Vec vec | Mat matrix

section \<open>Label encoder: \<^verbatim>\<open>int_to_onehot\<close>\<close>

text \<open>
  \<^verbatim>\<open>
  def int_to_onehot(y, num_labels):
      ary = np.zeros((y.shape[0], num_labels))
      for i, val in enumerate(y):
          ary[i, val] = 1
      return ary
  \<close>
  \<^verbatim>\<open>np.zeros\<close> refuses a negative dimension with a ValueError. The assignment
  \<^verbatim>\<open>ary[i, val] = 1\<close> follows numpy's index rule on the column axis of size \<open>c\<close>: an
  index in \<open>[0, c)\<close> is used as it is, an index in \<open>[-c, 0)\<close> counts from the end, anything
  else raises IndexError. The row index comes from \<^verbatim>\<open>enumerate\<close> and is the position
  in \<open>y\<close>.
\<close>

definition np_zeros2 :: "nat \<Rightarrow> int \<Rightarrow> error + matrix" where
  "np_zeros2 n c = (if c < 0 then Inl ValueError else Inr (replicate n (replicate (nat c) 0)))"

definition norm_index :: "int \<Rightarrow> nat \<Rightarrow> error + nat" where
  "norm_index k n =
     (if 0 \<le> k \<and> k < int n then Inr (nat k)
      else if - int n \<le> k \<and> k < 0 then Inr (nat (k + int n))
      else Inl IndexError)"

definition set_item2 :: "matrix \<Rightarrow> nat \<Rightarrow> int \<Rightarrow> real \<Rightarrow> error + matrix" where
  "set_item2 ary i k v =
     (if length ary \<le> i then Inl IndexError
      else case norm_index k (length (ary ! i)) of
             Inl e \<Rightarrow> Inl e
           | Inr j \<Rightarrow> Inr (ary[i := (ary ! i)[j := v]]))"

fun onehot_loop :: "(nat \<times> int) list \<Rightarrow> matrix \<Rightarrow> error + matrix" where
  "onehot_loop [] ary = Inr ary"
| "onehot_loop ((i, val) # rest) ary =
     (case set_item2 ary i val 1 of
        Inl e \<Rightarrow> Inl e
      | Inr ary' \<Rightarrow> onehot_loop rest ary')"

definition int_to_onehot :: "int list \<Rightarrow> int \<Rightarrow> error + matrix" where
  "int_to_onehot y num_labels =
     (case np_zeros2 (length y) num_labels of
        Inl e \<Rightarrow> Inl e
      | Inr ary \<Rightarrow> onehot_loop (enumerate 0 y) ary)"

text \<open>The column that label \<open>v\<close> selects among \<open>c\<close> columns, when it selects one.\<close>

definition wrap_col :: "int \<Rightarrow> int \<Rightarrow> nat" where
  "wrap_col c v = nat (if v < 0 then v + c else v)"

definition onehot_row :: "int \<Rightarrow> int \<Rightarrow> vec" where
  "onehot_row c v = (replicate (nat c) 0)[wrap_col c v := 1]"

section \<open>Layers\<close>

text \<open>
  The notebook is an exercise sheet: the bodies of the four layer functions are left empty
  between the markers \<^verbatim>\<open>START OF YOUR CODE\<close> and \<^verbatim>\<open>END OF YOUR CODE\<close>, so each
  returns the \<^verbatim>\<open>None\<close> it initialised.
  \<^verbatim>\<open>
  def affine_forward(x, w, b):
      out = None
      cache = (x, w, b)
      return out, cache

  def affine_backward(dout, cache):
      x, w, b = cache
      dx, dw, db = None, None, None
      return dx, dw, db

  def relu_forward(x):
      out = None
      cache = x
      return out, cache

  def relu_backward(dout, cache):
      dx, x = None, cache
      return dx
  \<close>
\<close>

type_synonym fc_cache = "pyval \<times> pyval \<times> pyval"

definition affine_forward :: "pyval \<Rightarrow> pyval \<Rightarrow> pyval \<Rightarrow> pyval \<times> fc_cache" where
  "affine_forward x w b = (let out = PyNone; cache = (x, w, b) in (out, cache))"

definition affine_backward :: "pyval \<Rightarrow> fc_cache \<Rightarrow> pyval \<times> pyval \<times> pyval" where
  "affine_backward dout cache =
     (case cache of (x, w, b) \<Rightarrow>
        (let (dx, dw, db) = (PyNone, PyNone, PyNone) in (dx, dw, db)))"

definition relu_forward :: "pyval \<Rightarrow> pyval \<times> pyval" where
  "relu_forward x = (let out = PyNone; cache = x in (out, cache))"

definition relu_backward :: "pyval \<Rightarrow> pyval \<Rightarrow> pyval" where
  "relu_backward dout cache = (let (dx, x) = (PyNone, cache) in dx)"

text \<open>
  \<^verbatim>\<open>
  def affine_relu_forward(x, w, b):
      a, fc_cache = affine_forward(x, w, b)
      out, relu_cache = relu_forward(a)
      cache = (fc_cache, relu_cache)
      return out, cache

  def affine_relu_backward(dout, cache):
      fc_cache, relu_cache = cache
      da = relu_backward(dout, relu_cache)
      dx, dw, db = affine_backward(da, fc_cache)
      return dx, dw, db
  \<close>
\<close>

definition affine_relu_forward :: "pyval \<Rightarrow> pyval \<Rightarrow> pyval \<Rightarrow> pyval \<times> (fc_cache \<times> pyval)" where
  "affine_relu_forward x w b =
     (let (a, fc_cache) = affine_forward x w b;
          (out, relu_cache) = relu_forward a;
          cache = (fc_cache, relu_cache)
      in (out, cache))"

definition affine_relu_backward :: "pyval \<Rightarrow> fc_cache \<times> pyval \<Rightarrow> pyval \<times> pyval \<times> pyval" where
  "affine_relu_backward dout cache =
     (case cache of (fc_cache, relu_cache) \<Rightarrow>
        (let da = relu_backward dout relu_cache;
             (dx, dw, db) = affine_backward da fc_cache
         in (dx, dw, db)))"

section \<open>The model: \<^verbatim>\<open>TwoLayerNN\<close>\<close>

text \<open>
  \<^verbatim>\<open>self.params\<close> is a dictionary with the four fixed keys \<^verbatim>\<open>weight_in\<close>,
  \<^verbatim>\<open>bias_in\<close>, \<^verbatim>\<open>weight_out\<close>, \<^verbatim>\<open>bias_out\<close>: a record with these fields.
\<close>

record params =
  weight_in :: pyval
  bias_in :: pyval
  weight_out :: pyval
  bias_out :: pyval

record TwoLayerNN =
  num_classes :: int
  params :: params

text \<open>
  \<^verbatim>\<open>
  def __init__(self, num_features, num_hidden, num_classes, random_seed=123):
      self.num_classes = num_classes
      rng = np.random.RandomState(random_seed)
      self.params = {}
      self.params['weight_in'] = rng.normal(
          loc=0.0, scale=0.001, size=(num_features, num_hidden))
      self.params['bias_in'] = np.zeros(num_hidden)
      self.params['weight_out'] = rng.normal(
          loc=0.0, scale=0.001, size=(num_hidden, num_classes))
      self.params['bias_out'] = np.zeros(num_classes)
  \<close>
  numpy's generator is not part of the repository. It is taken as two parameters:
  \<open>RandomState\<close> builds a generator state of type \<open>'r\<close> from a seed (or refuses the seed),
  and \<open>normal\<close> draws a matrix of the requested shape from a generator state, for a mean
  \<open>loc\<close> and a standard deviation \<open>scale\<close>, and returns the advanced state (or refuses the
  shape). The constructor neither reads nor writes the state \<open>g\<close> of numpy's global
  generator (the one \<^verbatim>\<open>np.random.seed\<close> and \<^verbatim>\<open>np.random.shuffle\<close> use); the state is
  passed through so that this can be said.
\<close>

definition np_zeros1 :: "int \<Rightarrow> error + vec" where
  "np_zeros1 n = (if n < 0 then Inl ValueError else Inr (replicate (nat n) 0))"

definition TwoLayerNN_init ::
  "(int \<Rightarrow> error + 'r) \<Rightarrow> ('r \<Rightarrow> real \<Rightarrow> real \<Rightarrow> int \<times> int \<Rightarrow> error + matrix \<times> 'r) \<Rightarrow>
   int \<Rightarrow> int \<Rightarrow> int \<Rightarrow> int \<Rightarrow> 'g \<Rightarrow> (error + TwoLayerNN) \<times> 'g" where
  "TwoLayerNN_init RandomState normal num_features num_hidden num_cls random_seed g =
     (case RandomState random_seed of
        Inl e \<Rightarrow> (Inl e, g)
      | Inr rng \<Rightarrow>
     (case normal rng 0 (1 / 1000) (num_features, num_hidden) of
        Inl e \<Rightarrow> (Inl e, g)
      | Inr (w_in, rng1) \<Rightarrow>
     (case np_zeros1 num_hidden of
        Inl e \<Rightarrow> (Inl e, g)
      | Inr b_in \<Rightarrow>
     (case normal rng1 0 (1 / 1000) (num_hidden, num_cls) of
        Inl e \<Rightarrow> (Inl e, g)
      | Inr (w_out, rng2) \<Rightarrow>
     (case np_zeros1 num_cls of
        Inl e \<Rightarrow> (Inl e, g)
      | Inr b_out \<Rightarrow>
          (Inr \<lparr>num_classes = num_cls,
                params = \<lparr>weight_in = Mat w_in, bias_in = Vec b_in,
                           weight_out = Mat w_out, bias_out = Vec b_out\<rparr>\<rparr>, g))))))"

text \<open>
  \<^verbatim>\<open>
  def loss(self, X, y=None):
      if y is None:
          out1, cache1 = affine_relu_forward(X, self.params['weight_in'], self.params['bias_in'])
          out2, cache2 = affine_forward(out1, self.params['weight_out'], self.params['bias_out'])
          return out2
      if y is not None:
          out1, cache1 = affine_relu_forward(X, self.params['weight_in'], self.params['bias_in'])
          out2, cache2 = affine_forward(out1, self.params['weight_out'], self.params['bias_out'])
          loss = None
          grads = {}
          grads['weight_in'] = dweight_in
          grads['bias_in'] = dbias_in
          grads['weight_out'] = dweight_out
          grads['bias_out'] = dbias_out
          return loss, grads
  \<close>
  With labels, the body between the markers is empty, so \<^verbatim>\<open>dweight_in\<close> is read without
  ever having been assigned, in the function or in the notebook: a NameError.
\<close>

datatype loss_result = Scores pyval | LossGrads pyval params

definition loss :: "TwoLayerNN \<Rightarrow> pyval \<Rightarrow> int list option \<Rightarrow> error + loss_result" where
  "loss self X y =
     (case y of
        None \<Rightarrow>
          (let (out1, cache1) =
                 affine_relu_forward X (weight_in (params self)) (bias_in (params self));
               (out2, cache2) =
                 affine_forward out1 (weight_out (params self)) (bias_out (params self))
           in Inr (Scores out2))
      | Some labels \<Rightarrow>
          (let (out1, cache1) =
                 affine_relu_forward X (weight_in (params self)) (bias_in (params self));
               (out2, cache2) =
                 affine_forward out1 (weight_out (params self)) (bias_out (params self))
           in Inl NameError))"

section \<open>Mini-batches: \<^verbatim>\<open>minibatch_generator\<close>\<close>

text \<open>
  \<^verbatim>\<open>
  minibatch_size = 400

  def minibatch_generator(X, y, minibatch_size):
      indices = np.arange(X.shape[0])
      np.random.shuffle(indices)
      for start_idx in range(0, indices.shape[0] - minibatch_size
                             + 1, minibatch_size):
          batch_idx = indices[start_idx:start_idx + minibatch_size]
          yield X[batch_idx], y[batch_idx]
  \<close>
  \<open>X\<close> is the list of its rows and \<open>y\<close> the list of its labels. \<^verbatim>\<open>np.random.shuffle\<close>
  works on numpy's global generator; it is the parameter \<open>shuffle\<close>, which takes the
  generator state and the index list and returns the shuffled list and the new state. The
  generator is modelled by the list of the mini-batches it yields, in order; an exception
  raised while it runs is the result \<open>Inl\<close>.

  Python's \<^verbatim>\<open>range(start, stop, step)\<close> raises ValueError for a step of 0, counts up
  while below \<open>stop\<close> for a positive step and down while above \<open>stop\<close> for a negative one.
\<close>

function range_up :: "int \<Rightarrow> int \<Rightarrow> int \<Rightarrow> int list" where
  "range_up i stop step =
     (if 0 < step \<and> i < stop then i # range_up (i + step) stop step else [])"
  by pat_completeness auto
termination
  by (relation "measure (\<lambda>(i, stop, step). nat (stop - i))") auto

function range_down :: "int \<Rightarrow> int \<Rightarrow> int \<Rightarrow> int list" where
  "range_down i stop step =
     (if step < 0 \<and> stop < i then i # range_down (i + step) stop step else [])"
  by pat_completeness auto
termination
  by (relation "measure (\<lambda>(i, stop, step). nat (i - stop))") auto

definition py_range :: "int \<Rightarrow> int \<Rightarrow> int \<Rightarrow> error + int list" where
  "py_range start stop step =
     (if step = 0 then Inl ValueError
      else if 0 < step then Inr (range_up start stop step)
      else Inr (range_down start stop step))"

text \<open>
  A slice \<^verbatim>\<open>xs[a:b]\<close>: a negative bound counts from the end, and both bounds are clipped
  to the list.
\<close>

definition clip_bound :: "nat \<Rightarrow> int \<Rightarrow> nat" where
  "clip_bound n k = (if k < 0 then nat (max 0 (k + int n)) else min (nat k) n)"

definition py_slice :: "'a list \<Rightarrow> int \<Rightarrow> int \<Rightarrow> 'a list" where
  "py_slice xs a b =
     (let lo = clip_bound (length xs) a; hi = clip_bound (length xs) b
      in take (hi - lo) (drop lo xs))"

text \<open>
  Indexing with an index array, \<^verbatim>\<open>X[batch_idx]\<close>: the rows at these positions, or an
  IndexError when a position is outside the array. The positions come from
  \<^verbatim>\<open>np.arange\<close> and are not negative.
\<close>

definition np_take :: "'a list \<Rightarrow> nat list \<Rightarrow> error + 'a list" where
  "np_take xs idx =
     (if list_all (\<lambda>i. i < length xs) idx then Inr (map ((!) xs) idx) else Inl IndexError)"

fun batches_loop ::
  "int list \<Rightarrow> nat list \<Rightarrow> 'a list \<Rightarrow> 'b list \<Rightarrow> int \<Rightarrow> error + ('a list \<times> 'b list) list" where
  "batches_loop [] indices X y minibatch_size = Inr []"
| "batches_loop (start_idx # rest) indices X y minibatch_size =
     (let batch_idx = py_slice indices start_idx (start_idx + minibatch_size) in
      case np_take X batch_idx of
        Inl e \<Rightarrow> Inl e
      | Inr X_mini \<Rightarrow>
     (case np_take y batch_idx of
        Inl e \<Rightarrow> Inl e
      | Inr y_mini \<Rightarrow>
     (case batches_loop rest indices X y minibatch_size of
        Inl e \<Rightarrow> Inl e
      | Inr batches \<Rightarrow> Inr ((X_mini, y_mini) # batches))))"

definition minibatch_generator ::
  "('g \<Rightarrow> nat list \<Rightarrow> nat list \<times> 'g) \<Rightarrow> 'a list \<Rightarrow> 'b list \<Rightarrow> int \<Rightarrow> 'g \<Rightarrow>
   (error + ('a list \<times> 'b list) list) \<times> 'g" where
  "minibatch_generator shuffle X y minibatch_size g =
     (let (indices, g') = shuffle g [0..<length X] in
      case py_range 0 (int (length indices) - minibatch_size + 1) minibatch_size of
        Inl e \<Rightarrow> (Inl e, g')
      | Inr starts \<Rightarrow> (batches_loop starts indices X y minibatch_size, g'))"

definition minibatch_size :: int where
  "minibatch_size = 400"

section \<open>Training: the mini-batch loop of \<^verbatim>\<open>train\<close>\<close>

text \<open>
  \<^verbatim>\<open>
  def train(model, X_train, y_train, X_valid, y_valid, num_epochs,
            learning_rate=0.1):
      ...
      for e in range(num_epochs):
          minibatch_gen = minibatch_generator(
              X_train, y_train, minibatch_size)
          for X_train_mini, y_train_mini in minibatch_gen:
              mini_onehots = int_to_onehot(y_train_mini, num_labels=10)
              # ***** START OF YOUR CODE ***** #
              # ***** END OF YOUR CODE ***** #
          #### Epoch Logging ####
          ...
  \<close>
  The body of the inner loop encodes the labels of the mini-batch and does nothing else:
  \<^verbatim>\<open>model\<close> and \<^verbatim>\<open>learning_rate\<close> are not used in it. \<open>train_minibatches\<close> is that inner
  loop over the mini-batches of one epoch, and \<open>train_epoch_batches\<close> the part of one epoch
  before the logging; the model is threaded through as the state the loop could change.
\<close>

fun train_minibatches ::
  "TwoLayerNN \<Rightarrow> real \<Rightarrow> (matrix \<times> int list) list \<Rightarrow> error + TwoLayerNN" where
  "train_minibatches model learning_rate [] = Inr model"
| "train_minibatches model learning_rate ((X_train_mini, y_train_mini) # rest) =
     (case int_to_onehot y_train_mini 10 of
        Inl e \<Rightarrow> Inl e
      | Inr mini_onehots \<Rightarrow> train_minibatches model learning_rate rest)"

definition train_epoch_batches ::
  "('g \<Rightarrow> nat list \<Rightarrow> nat list \<times> 'g) \<Rightarrow> TwoLayerNN \<Rightarrow> matrix \<Rightarrow> int list \<Rightarrow> real \<Rightarrow> 'g \<Rightarrow>
   (error + TwoLayerNN) \<times> 'g" where
  "train_epoch_batches shuffle model X_train y_train learning_rate g =
     (case minibatch_generator shuffle X_train y_train minibatch_size g of
        (Inl e, g') \<Rightarrow> (Inl e, g')
      | (Inr batches, g') \<Rightarrow> (train_minibatches model learning_rate batches, g'))"

section \<open>Facts about the label encoder\<close>

lemma norm_index_ok:
  "- int n \<le> k \<Longrightarrow> k < int n \<Longrightarrow> norm_index k n = Inr (wrap_col (int n) k)"
  by (simp add: norm_index_def wrap_col_def)

lemma norm_index_bad:
  "k < - int n \<or> int n \<le> k \<Longrightarrow> norm_index k n = Inl IndexError"
  by (auto simp: norm_index_def)

lemma wrap_col_less:
  "- c \<le> v \<Longrightarrow> v < c \<Longrightarrow> wrap_col c v < nat c"
  by (auto simp: wrap_col_def)

lemma onehot_loop_ok:
  assumes "\<forall>v \<in> set ys. - int c \<le> v \<and> v < int c"
    and "length ary = k + length ys"
    and "\<forall>i < length ary. length (ary ! i) = c"
  shows "\<exists>m. onehot_loop (enumerate k ys) ary = Inr m \<and> length m = length ary \<and>
           (\<forall>i < length ary. m ! i =
              (if k \<le> i then (ary ! i)[wrap_col (int c) (ys ! (i - k)) := 1] else ary ! i))"
  using assms
proof (induction ys arbitrary: k ary)
  case Nil
  then show ?case by simp
next
  case (Cons v vs)
  let ?ary' = "ary[k := (ary ! k)[wrap_col (int c) v := 1]]"
  have k: "k < length ary" using Cons.prems(2) by simp
  have rowk: "length (ary ! k) = c" using Cons.prems(3) k by simp
  have v: "- int c \<le> v" "v < int c" using Cons.prems(1) by simp_all
  have step: "set_item2 ary k v 1 = Inr ?ary'"
    using k rowk v by (simp add: set_item2_def norm_index_ok)
  have p1: "\<forall>v \<in> set vs. - int c \<le> v \<and> v < int c" using Cons.prems(1) by simp
  have p2: "length ?ary' = Suc k + length vs" using Cons.prems(2) by simp
  have p3: "\<forall>i < length ?ary'. length (?ary' ! i) = c"
    using Cons.prems(3) k rowk by (auto simp: nth_list_update)
  from Cons.IH[OF p1 p2 p3] obtain m where
    m: "onehot_loop (enumerate (Suc k) vs) ?ary' = Inr m" "length m = length ?ary'"
      "\<forall>i < length ?ary'. m ! i =
         (if Suc k \<le> i then (?ary' ! i)[wrap_col (int c) (vs ! (i - Suc k)) := 1]
          else ?ary' ! i)"
    by blast
  have "onehot_loop (enumerate k (v # vs)) ary = Inr m"
    using step m(1) by simp
  moreover have "length m = length ary" using m(2) by simp
  moreover have "\<forall>i < length ary. m ! i =
      (if k \<le> i then (ary ! i)[wrap_col (int c) ((v # vs) ! (i - k)) := 1] else ary ! i)"
  proof (intro allI impI)
    fix i assume i: "i < length ary"
    then have mi: "m ! i =
         (if Suc k \<le> i then (?ary' ! i)[wrap_col (int c) (vs ! (i - Suc k)) := 1]
          else ?ary' ! i)"
      using m(3) by simp
    consider "i < k" | "i = k" | "k < i" by linarith
    then show "m ! i =
      (if k \<le> i then (ary ! i)[wrap_col (int c) ((v # vs) ! (i - k)) := 1] else ary ! i)"
    proof cases
      case 1
      then show ?thesis using mi i by simp
    next
      case 2
      then show ?thesis using mi i by simp
    next
      case 3
      then have "(v # vs) ! (i - k) = vs ! (i - Suc k)"
        by (simp add: nth_Cons')
      then show ?thesis using mi i 3 by simp
    qed
  qed
  ultimately show ?case by blast
qed

lemma int_to_onehot_wrap:
  assumes "\<forall>v \<in> set y. - c \<le> v \<and> v < c" and "0 \<le> c"
  shows "int_to_onehot y c = Inr (map (onehot_row c) y)"
proof -
  let ?ary = "replicate (length y) (replicate (nat c) (0::real))"
  have a1: "\<forall>v \<in> set y. - int (nat c) \<le> v \<and> v < int (nat c)"
    using assms by simp
  have a2: "length ?ary = 0 + length y" by simp
  have a3: "\<forall>i < length ?ary. length (?ary ! i) = nat c" by simp
  from onehot_loop_ok[OF a1 a2 a3] obtain m where
    m: "onehot_loop (enumerate 0 y) ?ary = Inr m" "length m = length ?ary"
      "\<forall>i < length ?ary. m ! i =
         (if 0 \<le> i then (?ary ! i)[wrap_col (int (nat c)) (y ! (i - 0)) := 1] else ?ary ! i)"
    by blast
  have "m = map (onehot_row c) y"
  proof (rule nth_equalityI)
    show "length m = length (map (onehot_row c) y)" using m(2) by simp
  next
    fix i assume "i < length m"
    then have i: "i < length y" using m(2) by simp
    then have "m ! i = (replicate (nat c) 0)[wrap_col (int (nat c)) (y ! i) := 1]"
      using m(3) by simp
    then show "m ! i = map (onehot_row c) y ! i"
      using i assms(2) by (simp add: onehot_row_def)
  qed
  then show ?thesis
    using m(1) assms(2) by (simp add: int_to_onehot_def np_zeros2_def)
qed

lemma onehot_loop_bad:
  assumes "\<exists>v \<in> set ys. int c \<le> v \<or> v < - int c"
    and "length ary = k + length ys"
    and "\<forall>i < length ary. length (ary ! i) = c"
  shows "onehot_loop (enumerate k ys) ary = Inl IndexError"
  using assms
proof (induction ys arbitrary: k ary)
  case Nil
  then show ?case by simp
next
  case (Cons v vs)
  have k: "k < length ary" using Cons.prems(2) by simp
  have rowk: "length (ary ! k) = c" using Cons.prems(3) k by simp
  show ?case
  proof (cases "int c \<le> v \<or> v < - int c")
    case True
    then have "norm_index v c = Inl IndexError"
      by (intro norm_index_bad) auto
    then have "set_item2 ary k v 1 = Inl IndexError"
      using k rowk by (simp add: set_item2_def)
    then show ?thesis by simp
  next
    case False
    let ?ary' = "ary[k := (ary ! k)[wrap_col (int c) v := 1]]"
    from False have v: "- int c \<le> v" "v < int c" by simp_all
    have step: "set_item2 ary k v 1 = Inr ?ary'"
      using k rowk v by (simp add: set_item2_def norm_index_ok)
    have p1: "\<exists>v \<in> set vs. int c \<le> v \<or> v < - int c"
      using Cons.prems(1) False by auto
    have p2: "length ?ary' = Suc k + length vs" using Cons.prems(2) by simp
    have p3: "\<forall>i < length ?ary'. length (?ary' ! i) = c"
      using Cons.prems(3) k rowk by (auto simp: nth_list_update)
    show ?thesis
      using step Cons.IH[OF p1 p2 p3] by simp
  qed
qed

lemma onehot_row_length: "length (onehot_row c v) = nat c"
  by (simp add: onehot_row_def)

lemma onehot_row_nth:
  "j < nat c \<Longrightarrow> onehot_row c v ! j = (if j = wrap_col c v then 1 else 0)"
  by (simp add: onehot_row_def nth_list_update)

lemma sum_list_update_real:
  "j < length xs \<Longrightarrow> sum_list (xs[j := v]) = sum_list xs - xs ! j + (v::real)"
  by (induction xs arbitrary: j) (auto split: nat.splits)

lemma onehot_row_sum:
  "wrap_col c v < nat c \<Longrightarrow> sum_list (onehot_row c v) = 1"
  by (simp add: onehot_row_def sum_list_update_real sum_list_replicate)

section \<open>Claims about the label encoder\<close>

text \<open>
  C4. For a label vector whose entries all lie in \<open>[0, C)\<close>, with \<open>C\<close> a class count
  (not negative), \<open>int_to_onehot\<close> returns a matrix with one row per label and \<open>C\<close>
  columns; every row sums to exactly 1, has the entry 1 at the column of its label, and 0
  at every other column.
\<close>

theorem int_to_onehot_one_hot:
  assumes "\<forall>v \<in> set labels. 0 \<le> v \<and> v < C" and "0 \<le> C"
  shows "\<exists>m. int_to_onehot labels C = Inr m \<and> length m = length labels \<and>
           (\<forall>i < length labels.
              length (m ! i) = nat C \<and> sum_list (m ! i) = 1 \<and>
              m ! i ! nat (labels ! i) = 1 \<and>
              (\<forall>j < nat C. j \<noteq> nat (labels ! i) \<longrightarrow> m ! i ! j = 0))"
proof -
  have rng: "\<forall>v \<in> set labels. - C \<le> v \<and> v < C" using assms by auto
  have res: "int_to_onehot labels C = Inr (map (onehot_row C) labels)"
    using rng assms(2) by (rule int_to_onehot_wrap)
  have rows: "length (onehot_row C (labels ! i)) = nat C \<and>
      sum_list (onehot_row C (labels ! i)) = 1 \<and>
      onehot_row C (labels ! i) ! nat (labels ! i) = 1 \<and>
      (\<forall>j < nat C. j \<noteq> nat (labels ! i) \<longrightarrow> onehot_row C (labels ! i) ! j = 0)"
    if i: "i < length labels" for i
  proof -
    have v: "0 \<le> labels ! i" "labels ! i < C" using assms(1) i by simp_all
    have w: "wrap_col C (labels ! i) = nat (labels ! i)"
      using v by (simp add: wrap_col_def)
    have lt: "nat (labels ! i) < nat C" using v by simp
    show ?thesis
      using w lt by (simp add: onehot_row_length onehot_row_nth onehot_row_sum)
  qed
  show ?thesis
    using res rows by simp
qed

theorem int_to_onehot_one_hot_witness:
  "list_all (\<lambda>v. 0 \<le> v \<and> v < 3) [2, 0 :: int] \<and> (0::int) \<le> 3 \<and>
   int_to_onehot [2, 0] 3 = Inr [[0, 0, 1], [1, 0, 0]]"
proof -
  have h1: "\<forall>v \<in> set [2, 0 :: int]. 0 \<le> v \<and> v < 3" by simp
  have h2: "(0::int) \<le> 3" by simp
  from int_to_onehot_one_hot[OF h1 h2] obtain m where
    m: "int_to_onehot [2, 0] 3 = Inr m" by blast
  have "int_to_onehot [2, 0] 3 = Inr [[0, 0, 1], [1, 0, 0]]"
    by (simp add: int_to_onehot_def np_zeros2_def enumerate_eq_zip set_item2_def
        norm_index_def eval_nat_numeral upt_rec)
  then show ?thesis using h1 h2 m by simp
qed

text \<open>
  C10. For a label vector whose entries all lie in \<open>[-C, -1]\<close>, \<open>int_to_onehot\<close> does not
  fail: it returns a matrix with one row per label and \<open>C\<close> columns, and row \<open>i\<close> has its
  single 1 at column \<open>C + labels[i]\<close>, every other entry being 0. The negative label is
  encoded at the wrapped position.
\<close>

theorem int_to_onehot_negative_wraps:
  assumes "\<forall>v \<in> set labels. - C \<le> v \<and> v \<le> - 1" and "0 \<le> C"
  shows "\<exists>m. int_to_onehot labels C = Inr m \<and> length m = length labels \<and>
           (\<forall>i < length labels.
              length (m ! i) = nat C \<and>
              m ! i ! nat (C + labels ! i) = 1 \<and>
              (\<forall>j < nat C. j \<noteq> nat (C + labels ! i) \<longrightarrow> m ! i ! j = 0))"
proof -
  have rng: "\<forall>v \<in> set labels. - C \<le> v \<and> v < C" using assms by auto
  have res: "int_to_onehot labels C = Inr (map (onehot_row C) labels)"
    using rng assms(2) by (rule int_to_onehot_wrap)
  have rows: "length (onehot_row C (labels ! i)) = nat C \<and>
      onehot_row C (labels ! i) ! nat (C + labels ! i) = 1 \<and>
      (\<forall>j < nat C. j \<noteq> nat (C + labels ! i) \<longrightarrow> onehot_row C (labels ! i) ! j = 0)"
    if i: "i < length labels" for i
  proof -
    have v: "- C \<le> labels ! i" "labels ! i \<le> - 1" using assms(1) i by simp_all
    have w: "wrap_col C (labels ! i) = nat (C + labels ! i)"
      using v by (simp add: wrap_col_def add.commute)
    have lt: "nat (C + labels ! i) < nat C" using v by simp
    show ?thesis
      using w lt by (simp add: onehot_row_length onehot_row_nth)
  qed
  show ?thesis
    using res rows by simp
qed

theorem int_to_onehot_negative_wraps_witness:
  "list_all (\<lambda>v. - 3 \<le> v \<and> v \<le> - 1) [- 3, - 1 :: int] \<and> (0::int) \<le> 3 \<and>
   int_to_onehot [- 3, - 1] 3 = Inr [[1, 0, 0], [0, 0, 1]]"
proof -
  have h1: "\<forall>v \<in> set [- 3, - 1 :: int]. - 3 \<le> v \<and> v \<le> - 1" by simp
  have h2: "(0::int) \<le> 3" by simp
  from int_to_onehot_negative_wraps[OF h1 h2] obtain m where
    m: "int_to_onehot [- 3, - 1] 3 = Inr m" by blast
  have "int_to_onehot [- 3, - 1] 3 = Inr [[1, 0, 0], [0, 0, 1]]"
    by (simp add: int_to_onehot_def np_zeros2_def enumerate_eq_zip set_item2_def
        norm_index_def eval_nat_numeral upt_rec)
  then show ?thesis using h1 h2 m by simp
qed

text \<open>
  C5, as the code has it. The claim says that a label below 0 makes the encoder fail. It
  does not when the label is in \<open>[-C, -1]\<close>: the label \<open>-1\<close> with three classes is encoded
  in the last column.
\<close>

theorem int_to_onehot_negative_label_counterexample:
  "(- 1 :: int) < 0 \<and> int_to_onehot [- 1] 3 = Inr [[0, 0, 1]]"
  by (simp add: int_to_onehot_def np_zeros2_def enumerate_eq_zip set_item2_def
      norm_index_def eval_nat_numeral upt_rec)

text \<open>
  C5, amended. For a class count \<open>C\<close> (not negative) and a label vector with at least one
  entry that is \<open>\<ge> C\<close> or \<open>< -C\<close>, \<open>int_to_onehot\<close> fails with numpy's out-of-range
  error (IndexError) and returns no matrix.
\<close>

theorem int_to_onehot_out_of_range:
  assumes "\<exists>v \<in> set labels. C \<le> v \<or> v < - C" and "0 \<le> C"
  shows "int_to_onehot labels C = Inl IndexError"
proof -
  let ?ary = "replicate (length labels) (replicate (nat C) (0::real))"
  have a1: "\<exists>v \<in> set labels. int (nat C) \<le> v \<or> v < - int (nat C)"
    using assms by simp
  have a2: "length ?ary = 0 + length labels" by simp
  have a3: "\<forall>i < length ?ary. length (?ary ! i) = nat C" by simp
  have "onehot_loop (enumerate 0 labels) ?ary = Inl IndexError"
    using a1 a2 a3 by (rule onehot_loop_bad)
  then show ?thesis
    using assms(2) by (simp add: int_to_onehot_def np_zeros2_def)
qed

theorem int_to_onehot_out_of_range_witness:
  "(\<exists>v \<in> set [0, 3 :: int]. 3 \<le> v \<or> v < - 3) \<and> (0::int) \<le> 3 \<and>
   int_to_onehot [0, 3] 3 = Inl IndexError"
proof -
  have h1: "\<exists>v \<in> set [0, 3 :: int]. 3 \<le> v \<or> v < - 3" by simp
  have h2: "(0::int) \<le> 3" by simp
  show ?thesis
    using h1 h2 int_to_onehot_out_of_range[OF h1 h2] by simp
qed

section \<open>Facts about the layers and the training loop\<close>

lemma affine_forward_eq: "affine_forward x w b = (PyNone, (x, w, b))"
  by (simp add: affine_forward_def)

lemma affine_backward_eq: "affine_backward dout cache = (PyNone, PyNone, PyNone)"
  by (simp add: affine_backward_def split: prod.splits)

lemma relu_forward_eq: "relu_forward x = (PyNone, x)"
  by (simp add: relu_forward_def)

lemma relu_backward_eq: "relu_backward dout cache = PyNone"
  by (simp add: relu_backward_def)

lemma affine_relu_forward_eq:
  "affine_relu_forward x w b = (PyNone, ((x, w, b), PyNone))"
  by (simp add: affine_relu_forward_def affine_forward_eq relu_forward_eq)

lemma loss_predict_eq: "loss self X None = Inr (Scores PyNone)"
  by (simp add: loss_def affine_relu_forward_eq affine_forward_eq)

lemma loss_labels_eq: "loss self X (Some labels) = Inl NameError"
  by (simp add: loss_def affine_relu_forward_eq affine_forward_eq)

lemma train_minibatches_unchanged:
  "train_minibatches model learning_rate batches = Inr model' \<Longrightarrow> model' = model"
  by (induction model learning_rate batches rule: train_minibatches.induct)
    (auto split: sum.splits)

section \<open>Claims about the layers\<close>

text \<open>
  C1 says that \<open>affine_backward\<close> returns \<open>dX = dY\<cdot>W\<^sup>T\<close>, \<open>dW = X\<^sup>T\<cdot>dY\<close> and \<open>db\<close> the
  column sums of \<open>dY\<close>. On the cache of \<open>affine_forward\<close> for \<open>X = [[1, 2]]\<close>,
  \<open>W = [[3], [4]]\<close>, \<open>b = [5]\<close> and the upstream gradient \<open>dY = [[1]]\<close> that would be
  \<open>dX = [[3, 4]]\<close>, \<open>dW = [[1], [2]]\<close>, \<open>db = [1]\<close>. The function returns three times
  \<^verbatim>\<open>None\<close>: its body is empty.
\<close>

theorem affine_backward_returns_none:
  "affine_backward (Mat [[1]]) (snd (affine_forward (Mat [[1, 2]]) (Mat [[3], [4]]) (Vec [5])))
     = (PyNone, PyNone, PyNone) \<and>
   affine_backward (Mat [[1]]) (snd (affine_forward (Mat [[1, 2]]) (Mat [[3], [4]]) (Vec [5])))
     \<noteq> (Mat [[3, 4]], Mat [[1], [2]], Vec [1])"
  by (simp add: affine_backward_eq)

text \<open>
  C8 says that \<open>relu_forward\<close> returns \<open>max(0, X)\<close> entry by entry with the cache \<open>X\<close>, and
  that \<open>relu_backward\<close> lets the upstream gradient through where \<open>X > 0\<close> and returns 0
  elsewhere. For \<open>X = [1, -1]\<close> and \<open>dY = [1, 1]\<close> that would be \<open>Y = [1, 0]\<close> and
  \<open>dX = [1, 0]\<close>. The cache is \<open>X\<close> as claimed, but both results are \<^verbatim>\<open>None\<close>.
\<close>

theorem relu_returns_none:
  "relu_forward (Vec [1, - 1]) = (PyNone, Vec [1, - 1]) \<and>
   fst (relu_forward (Vec [1, - 1])) \<noteq> Vec [1, 0] \<and>
   relu_backward (Vec [1, 1]) (snd (relu_forward (Vec [1, - 1]))) = PyNone \<and>
   relu_backward (Vec [1, 1]) (snd (relu_forward (Vec [1, - 1]))) \<noteq> Vec [1, 0]"
  by (simp add: relu_forward_eq relu_backward_eq)

text \<open>
  C7 says that \<open>loss\<close> without labels returns the \<open>N \<times> C\<close> matrix of raw scores. It does
  run \<open>affine_relu_forward\<close> and then \<open>affine_forward\<close> and returns the second output as it
  is, but that output is \<^verbatim>\<open>None\<close>, since \<open>affine_forward\<close> has an empty body: for a model
  with one feature, one hidden unit and one class and the \<open>1 \<times> 1\<close> input \<open>[[1]]\<close> the
  result is \<^verbatim>\<open>None\<close>, not a \<open>1 \<times> 1\<close> matrix.
\<close>

theorem loss_predict_returns_none:
  "loss \<lparr>num_classes = 1,
         params = \<lparr>weight_in = Mat [[1]], bias_in = Vec [0],
                    weight_out = Mat [[1]], bias_out = Vec [0]\<rparr>\<rparr> (Mat [[1]]) None
     = Inr (Scores PyNone) \<and>
   (\<nexists>scores. loss \<lparr>num_classes = 1,
         params = \<lparr>weight_in = Mat [[1]], bias_in = Vec [0],
                    weight_out = Mat [[1]], bias_out = Vec [0]\<rparr>\<rparr> (Mat [[1]]) None
     = Inr (Scores (Mat scores)))"
  by (simp add: loss_predict_eq)

section \<open>Claim about the training loop\<close>

text \<open>
  C2 says that for every mini-batch the training loop calls the model's loss and gradients
  and then replaces each of the four parameters \<open>p\<close> by \<open>p - \<eta>\<cdot>grad[p]\<close>. The loop body
  only encodes the labels: after the mini-batch \<open>([[1]], [0])\<close> with learning rate \<open>1/10\<close>
  the model is what it was, whatever the gradients would be. The loss with labels is never
  called, and it could not supply gradients: it raises NameError.
\<close>

theorem train_minibatches_no_update:
  "train_minibatches
     \<lparr>num_classes = 1,
      params = \<lparr>weight_in = Mat [[1]], bias_in = Vec [0],
                 weight_out = Mat [[1]], bias_out = Vec [0]\<rparr>\<rparr> (1 / 10) [([[1]], [0])]
     = Inr \<lparr>num_classes = 1,
            params = \<lparr>weight_in = Mat [[1]], bias_in = Vec [0],
                       weight_out = Mat [[1]], bias_out = Vec [0]\<rparr>\<rparr> \<and>
   loss \<lparr>num_classes = 1,
         params = \<lparr>weight_in = Mat [[1]], bias_in = Vec [0],
                    weight_out = Mat [[1]], bias_out = Vec [0]\<rparr>\<rparr> (Mat [[1]]) (Some [0])
     = Inl NameError"
proof -
  have "\<forall>v \<in> set [0 :: int]. - 10 \<le> v \<and> v < 10" by simp
  then have "int_to_onehot [0] 10 = Inr (map (onehot_row 10) [0])"
    by (rule int_to_onehot_wrap) simp
  then show ?thesis by (simp add: loss_labels_eq)
qed

section \<open>Fact about the constructor\<close>

text \<open>
  What the constructor's own code does, given what numpy's generator returns: when the
  generator accepts the seed and the two shapes and the hidden and class counts are not
  negative, the weights are the two draws requested with mean 0 and deviation 0.001, in
  this order, and the biases are zero vectors. What the generator itself returns is
  numpy's matter and is not modelled.
\<close>

lemma TwoLayerNN_init_success:
  assumes "RandomState seed = Inr rng"
    and "normal rng 0 (1 / 1000) (F, H) = Inr (w1, rng1)"
    and "normal rng1 0 (1 / 1000) (H, C) = Inr (w2, rng2)"
    and "0 \<le> H" and "0 \<le> C"
  shows "TwoLayerNN_init RandomState normal F H C seed g =
      (Inr \<lparr>num_classes = C,
            params = \<lparr>weight_in = Mat w1, bias_in = Vec (replicate (nat H) 0),
                       weight_out = Mat w2, bias_out = Vec (replicate (nat C) 0)\<rparr>\<rparr>, g)"
  using assms by (simp add: TwoLayerNN_init_def np_zeros1_def)

section \<open>Facts and claim about the mini-batch generator\<close>

lemma range_up_batches:
  assumes B: "0 < B" and k: "k \<le> N div B"
  shows "range_up (int k * int B) (int N - int B + 1) (int B) =
     map (\<lambda>j. int j * int B) [k..<N div B]"
  using k
proof (induction "N div B - k" arbitrary: k)
  case 0
  then have keq: "k = N div B" by simp
  have "N < (N div B) * B + B"
    using B by (metis dividend_less_div_times add.commute mult.commute)
  then have "int N < int ((N div B) * B + B)"
    by (simp only: of_nat_less_iff)
  then have "int N < int k * int B + int B"
    using keq by simp
  then have "\<not> int k * int B < int N - int B + 1"
    by linarith
  then show ?case
    using keq by (subst range_up.simps) simp
next
  case (Suc d)
  then have klt: "k < N div B" by simp
  then have sk: "Suc k \<le> N div B" by simp
  then have "Suc k * B \<le> N"
    using B by (simp add: less_eq_div_iff_mult_less_eq)
  then have "int (Suc k * B) \<le> int N"
    by (simp only: of_nat_le_iff)
  then have le: "int k * int B + int B \<le> int N"
    by (simp add: algebra_simps)
  then have c: "int k * int B < int N - int B + 1" by linarith
  have d: "d = N div B - Suc k" using Suc.hyps(2) by simp
  have nx: "int k * int B + int B = int (Suc k) * int B"
    by (simp add: algebra_simps)
  have ih: "range_up (int (Suc k) * int B) (int N - int B + 1) (int B) =
      map (\<lambda>j. int j * int B) [Suc k..<N div B]"
    using Suc.hyps(1)[OF d sk] .
  have "range_up (int k * int B) (int N - int B + 1) (int B) =
      int k * int B # range_up (int k * int B + int B) (int N - int B + 1) (int B)"
    using c B by (subst range_up.simps) simp
  then show ?case
    using ih klt by (simp only: nx upt_conv_Cons list.map)
qed

lemma py_slice_batch:
  assumes "j * B + B \<le> length xs"
  shows "py_slice xs (int j * int B) (int j * int B + int B) = take B (drop (j * B) xs)"
proof -
  have e1: "int j * int B = int (j * B)" by simp
  have e2: "int (j * B) + int B = int (j * B + B)" by simp
  have lo: "clip_bound (length xs) (int (j * B)) = j * B"
    using assms by (simp add: clip_bound_def del: of_nat_mult of_nat_add)
  have hi: "clip_bound (length xs) (int (j * B + B)) = j * B + B"
    using assms by (simp add: clip_bound_def del: of_nat_mult of_nat_add)
  show ?thesis
    unfolding e1 e2 by (simp add: py_slice_def Let_def lo hi del: of_nat_mult of_nat_add)
qed

lemma np_take_ok:
  "\<forall>i \<in> set idx. i < length xs \<Longrightarrow> np_take xs idx = Inr (map ((!) xs) idx)"
  by (simp add: np_take_def list_all_iff)

lemma batches_loop_slices:
  assumes "\<forall>j \<in> set ks. j * B + B \<le> length perm"
    and "\<forall>i \<in> set perm. i < length X \<and> i < length y"
  shows "batches_loop (map (\<lambda>j. int j * int B) ks) perm X y (int B) =
     Inr (map (\<lambda>j. (map ((!) X) (take B (drop (j * B) perm)),
                      map ((!) y) (take B (drop (j * B) perm)))) ks)"
  using assms(1)
proof (induction ks)
  case Nil
  then show ?case by simp
next
  case (Cons j js)
  have sl: "py_slice perm (int j * int B) (int j * int B + int B) = take B (drop (j * B) perm)"
    using Cons.prems by (intro py_slice_batch) simp
  have sub: "set (take B (drop (j * B) perm)) \<subseteq> set perm"
    by (meson set_take_subset set_drop_subset subset_trans)
  have tx: "np_take X (take B (drop (j * B) perm)) = Inr (map ((!) X) (take B (drop (j * B) perm)))"
    using sub assms(2) by (intro np_take_ok) auto
  have ty: "np_take y (take B (drop (j * B) perm)) = Inr (map ((!) y) (take B (drop (j * B) perm)))"
    using sub assms(2) by (intro np_take_ok) auto
  have ih: "batches_loop (map (\<lambda>j. int j * int B) js) perm X y (int B) =
     Inr (map (\<lambda>j. (map ((!) X) (take B (drop (j * B) perm)),
                      map ((!) y) (take B (drop (j * B) perm)))) js)"
    using Cons by simp
  show ?case
    by (simp add: Let_def sl tx ty ih)
qed

lemma concat_slices:
  "concat (map (\<lambda>k. take B (drop (k * B) xs)) [0..<n]) = take (n * B) xs"
proof (induction n)
  case 0
  then show ?case by simp
next
  case (Suc n)
  have "take (n * B + B) xs = take (n * B) xs @ take B (drop (n * B) xs)"
    by (rule take_add)
  then show ?case
    using Suc by (simp add: add.commute)
qed

lemma minibatch_generator_eq:
  fixes X :: "'a list" and y :: "'b list" and B :: nat
  assumes B: "0 < B"
    and len: "length y = length X"
    and perm: "mset (fst (shuffle g [0..<length X])) = mset [0..<length X]"
  shows "minibatch_generator shuffle X y (int B) g =
     (Inr (map (\<lambda>k. (map ((!) X) (take B (drop (k * B) (fst (shuffle g [0..<length X])))),
                       map ((!) y) (take B (drop (k * B) (fst (shuffle g [0..<length X]))))))
            [0..<length X div B]), snd (shuffle g [0..<length X]))"
proof -
  let ?N = "length X"
  let ?perm = "fst (shuffle g [0..<?N])"
  have lp: "length ?perm = ?N"
    using perm by (metis size_mset length_upt diff_zero)
  have sp: "set ?perm = {0..<?N}"
    using perm by (metis set_mset_mset set_upt)
  have rng: "py_range 0 (int (length ?perm) - int B + 1) (int B) =
      Inr (map (\<lambda>j. int j * int B) [0..<?N div B])"
    using range_up_batches[of B 0 ?N] B by (simp add: py_range_def lp)
  have fit: "k * B + B \<le> ?N" if "k < ?N div B" for k
  proof -
    from that have "Suc k \<le> ?N div B" by simp
    then have "Suc k * B \<le> ?N" using B by (simp add: less_eq_div_iff_mult_less_eq)
    then show ?thesis by (simp add: add.commute)
  qed
  have a1: "\<forall>j \<in> set [0..<?N div B]. j * B + B \<le> length ?perm"
    using fit lp by simp
  have a2: "\<forall>i \<in> set ?perm. i < length X \<and> i < length y"
    using sp len by simp
  have bl: "batches_loop (map (\<lambda>j. int j * int B) [0..<?N div B]) ?perm X y (int B) =
     Inr (map (\<lambda>j. (map ((!) X) (take B (drop (j * B) ?perm)),
                      map ((!) y) (take B (drop (j * B) ?perm)))) [0..<?N div B])"
    using a1 a2 by (rule batches_loop_slices)
  show ?thesis
  proof (cases "shuffle g [0..<?N]")
    case (Pair indices g')
    show ?thesis
      using rng bl by (simp add: minibatch_generator_def Pair)
  qed
qed

text \<open>
  C6. For a training set of \<open>N\<close> examples (rows \<open>X\<close>, labels \<open>y\<close> of the same length), a
  mini-batch size \<open>B\<close> with \<open>1 \<le> B \<le> N\<close>, and a shuffle that returns a permutation of
  the indices, one run of \<open>minibatch_generator\<close> yields exactly \<open>N div B\<close> mini-batches.
  Mini-batch \<open>k\<close> holds the rows and labels at the positions \<open>perm[k*B : k*B + B]\<close> of the
  shuffled index list, so it has exactly \<open>B\<close> examples; together the mini-batches use the
  first \<open>(N div B) * B\<close> shuffled positions, and the remaining fewer than \<open>B\<close> are
  dropped. For \<open>N = 17\<close> and \<open>B = 5\<close> that is 3 mini-batches and 15 examples.
\<close>

theorem minibatch_generator_batches:
  fixes X :: "'a list" and y :: "'b list" and B :: nat
  assumes B: "0 < B" "B \<le> length X"
    and len: "length y = length X"
    and perm: "mset (fst (shuffle g [0..<length X])) = mset [0..<length X]"
  shows "\<exists>batches. fst (minibatch_generator shuffle X y (int B) g) = Inr batches \<and>
     length batches = length X div B \<and>
     (\<forall>k < length X div B.
        batches ! k =
          (map ((!) X) (take B (drop (k * B) (fst (shuffle g [0..<length X])))),
           map ((!) y) (take B (drop (k * B) (fst (shuffle g [0..<length X]))))) \<and>
        length (fst (batches ! k)) = B \<and> length (snd (batches ! k)) = B) \<and>
     concat (map fst batches) =
       map ((!) X) (take (length X div B * B) (fst (shuffle g [0..<length X]))) \<and>
     concat (map snd batches) =
       map ((!) y) (take (length X div B * B) (fst (shuffle g [0..<length X])))"
proof -
  let ?N = "length X"
  let ?perm = "fst (shuffle g [0..<?N])"
  let ?sl = "\<lambda>k. take B (drop (k * B) ?perm)"
  let ?bs = "map (\<lambda>k. (map ((!) X) (?sl k), map ((!) y) (?sl k))) [0..<?N div B]"
  have lp: "length ?perm = ?N"
    using perm by (metis size_mset length_upt diff_zero)
  have res: "fst (minibatch_generator shuffle X y (int B) g) = Inr ?bs"
    using minibatch_generator_eq[of B y X shuffle g] B(1) len perm by simp
  have fit: "k * B + B \<le> ?N" if "k < ?N div B" for k
  proof -
    from that have "Suc k \<le> ?N div B" by simp
    then have "Suc k * B \<le> ?N" using B(1) by (simp add: less_eq_div_iff_mult_less_eq)
    then show ?thesis by (simp add: add.commute)
  qed
  have c1: "length ?bs = ?N div B" by simp
  have c2: "\<forall>k < ?N div B.
        ?bs ! k = (map ((!) X) (?sl k), map ((!) y) (?sl k)) \<and>
        length (fst (?bs ! k)) = B \<and> length (snd (?bs ! k)) = B"
  proof (intro allI impI)
    fix k assume k: "k < ?N div B"
    have "length (?sl k) = B" using fit[OF k] lp by simp
    then show "?bs ! k = (map ((!) X) (?sl k), map ((!) y) (?sl k)) \<and>
        length (fst (?bs ! k)) = B \<and> length (snd (?bs ! k)) = B"
      using k by simp
  qed
  have "concat (map fst ?bs) = map ((!) X) (concat (map ?sl [0..<?N div B]))"
    by (simp add: map_concat comp_def)
  then have c3: "concat (map fst ?bs) = map ((!) X) (take (?N div B * B) ?perm)"
    by (simp only: concat_slices)
  have "concat (map snd ?bs) = map ((!) y) (concat (map ?sl [0..<?N div B]))"
    by (simp add: map_concat comp_def)
  then have c4: "concat (map snd ?bs) = map ((!) y) (take (?N div B * B) ?perm)"
    by (simp only: concat_slices)
  show ?thesis
    by (intro exI[of _ ?bs] conjI res c1 c2 c3 c4)
qed

theorem minibatch_generator_batches_witness:
  "(0::nat) < 5 \<and> 5 \<le> length [0..<17] \<and>
   (\<exists>batches. fst (minibatch_generator (\<lambda>g xs. (rev xs, g)) [0..<17]
                    (replicate 17 (0::int)) 5 ()) = Inr batches \<and>
      length batches = 3 \<and>
      concat (map fst batches) = [16, 15, 14, 13, 12, 11, 10, 9, 8, 7, 6, 5, 4, 3, 2])"
proof -
  have h1: "(0::nat) < 5" by simp
  have h2: "(5::nat) \<le> length [0..<17]" by simp
  have h3: "length (replicate 17 (0::int)) = length [0..<17]" by simp
  have h4: "mset (fst ((\<lambda>g xs. (rev xs, g)) () [0..<length [0..<17]])) =
      mset [0..<length [0..<17]]"
    by simp
  have d: "length [0..<17] div 5 = 3" by simp
  have r: "map ((!) [0..<17]) (take (length [0..<17] div 5 * 5)
        (rev [0..<length [0..<17]])) =
      [16, 15, 14, 13, 12, 11, 10, 9, 8, 7, 6, 5, 4, 3, 2]"
    by code_simp
  from minibatch_generator_batches
      [of 5 "[0..<17]" "replicate 17 (0::int)" "\<lambda>g xs. (rev xs, g)" "()", OF h1 h2 h3 h4]
  obtain batches where
    b: "fst (minibatch_generator (\<lambda>g xs. (rev xs, g)) [0..<17]
              (replicate 17 (0::int)) (int 5) ()) = Inr batches"
      "length batches = length [0..<17] div 5"
      "concat (map fst batches) =
         map ((!) [0..<17]) (take (length [0..<17] div 5 * 5)
           (fst ((\<lambda>g xs. (rev xs, g)) () [0..<length [0..<17]])))"
    by blast
  have b1: "fst (minibatch_generator (\<lambda>g xs. (rev xs, g)) [0..<17]
              (replicate 17 (0::int)) 5 ()) = Inr batches"
    using b(1) by simp
  have b2: "length batches = 3" using b(2) d by simp
  have b3: "concat (map fst batches) = [16, 15, 14, 13, 12, 11, 10, 9, 8, 7, 6, 5, 4, 3, 2]"
    using b(3) r by (simp only: fst_conv)
  show ?thesis
    using h1 h2 b1 b2 b3 by blast
qed

end
